theory Spec2Isabelle
  imports Complex_Main
begin

section \<open>The game "One More Step": a shallow embedding of game.js\<close>

text \<open>
  The program keeps its whole simulation in a handful of global variables that the
  keyboard handler, the button handlers and the frame callback \<open>gameLoop\<close> read and
  write. The embedding collects these variables in one record and every handler becomes
  a function from state to state.

  Numbers. JavaScript numbers are IEEE doubles. Player coordinates are integers (spawn
  \<open>(50, 550)\<close>, steps of 40) and hazard coordinates are multiples of one half (speeds
  \<open>2\<close>, \<open>1.5\<close>, \<open>3\<close>), all far below \<open>2^53\<close>, so on these values double
  arithmetic is exact and is modelled by \<open>real\<close>. Energy and the step counter only ever
  hold integers and are modelled by \<open>int\<close>. Particle arithmetic (\<open>life -= 0.02\<close>,
  \<open>vy += 0.3\<close>, the products with random numbers) and the decay of the screen shake
  are not exact in doubles. There every operation is the exact operation followed by
  \<open>roundDouble\<close>, the rounding to the nearest double with ties to the even mantissa,
  and a decimal literal such as \<open>0.02\<close> is \<open>roundDouble (2/100)\<close>, the double the parser
  reads.

  Left out: the canvas drawing calls, the DOM (screen visibility, HUD text), the audio
  calls and the wall clock timer (\<open>startTime\<close>, \<open>elapsedTime\<close>, \<open>goal.pulseSize\<close>).
  None of them is read by the simulation code modelled here. The values \<open>Math.random()\<close>
  returns while a burst of confetti is created are an argument \<open>rnd\<close>: \<open>rnd k\<close> is
  the result of the \<open>k\<close>-th call made by that burst.
\<close>

subsection \<open>Data\<close>

datatype gstate = Title | Playing | Won | Lost

record player =
  p_x :: real
  p_y :: real
  p_size :: real
  p_speed :: real
  energy :: int
  steps :: int

record goal =
  g_x :: real
  g_y :: real
  g_size :: real

record wall =
  w_x :: real
  w_y :: real
  w_width :: real
  w_height :: real

record hazard =
  h_x :: real
  h_y :: real
  h_width :: real
  h_height :: real
  speedX :: real
  speedY :: real
  direction :: real

record particle =
  pt_x :: real
  pt_y :: real
  vx :: real
  vy :: real
  color :: real
  pt_size :: real
  life :: real

record state =
  gameState :: gstate
  isMuted :: bool
  player :: player
  walls :: "wall list"
  hazards :: "hazard list"
  particles :: "particle list"
  shakeAmount :: real

definition canvas_width :: real where
  "canvas_width = 800"

definition canvas_height :: real where
  "canvas_height = 600"

definition goal :: goal where
  "goal = \<lparr>g_x = 750, g_y = 50, g_size = 40\<rparr>"

definition mkWall :: "real \<Rightarrow> real \<Rightarrow> real \<Rightarrow> real \<Rightarrow> wall" where
  "mkWall x y w h = \<lparr>w_x = x, w_y = y, w_width = w, w_height = h\<rparr>"

definition initialWalls :: "wall list" where
  "initialWalls =
     [mkWall 0 0 800 20,
      mkWall 0 580 800 20,
      mkWall 0 0 20 600,
      mkWall 780 0 20 600,
      mkWall 200 100 20 300,
      mkWall 400 200 20 380,
      mkWall 600 20 20 400]"

definition mkHazard :: "real \<Rightarrow> real \<Rightarrow> real \<Rightarrow> real \<Rightarrow> real \<Rightarrow> real \<Rightarrow> real \<Rightarrow> hazard" where
  "mkHazard x y w h sx sy d =
     \<lparr>h_x = x, h_y = y, h_width = w, h_height = h, speedX = sx, speedY = sy, direction = d\<rparr>"

definition initialHazards :: "hazard list" where
  "initialHazards =
     [mkHazard 100 200 100 20 2 0 1,
      mkHazard 300 400 120 20 (3/2) 0 (-1),
      mkHazard 500 300 80 20 3 0 1]"

text \<open>The values of the global variables when the script has been loaded.\<close>

definition initialState :: state where
  "initialState =
     \<lparr>gameState = Title,
      isMuted = False,
      player = \<lparr>p_x = 50, p_y = 550, p_size = 30, p_speed = 40, energy = 100, steps = 0\<rparr>,
      walls = initialWalls,
      hazards = initialHazards,
      particles = [],
      shakeAmount = 0\<rparr>"

subsection \<open>Reset\<close>

text \<open>
  \<open>resetGame\<close> assigns \<open>hazards[0]\<close>, \<open>hazards[1]\<close> and \<open>hazards[2]\<close>. The array is
  created with three elements and no code adds or removes one, so the first equation is
  the only one a run reaches (with fewer elements the script would stop with a
  TypeError).
\<close>

fun resetHazards :: "hazard list \<Rightarrow> hazard list" where
  "resetHazards (h0 # h1 # h2 # hs) =
     h0\<lparr>h_x := 100, direction := 1\<rparr> #
     h1\<lparr>h_x := 300, direction := -1\<rparr> #
     h2\<lparr>h_x := 500, direction := 1\<rparr> # hs"
| "resetHazards hs = hs"

definition resetGame :: "state \<Rightarrow> state" where
  "resetGame s =
     s\<lparr>player := (player s)\<lparr>p_x := 50, p_y := 550, energy := 100, steps := 0\<rparr>,
       hazards := resetHazards (hazards s),
       particles := [],
       shakeAmount := 0\<rparr>"

subsection \<open>Collision tests\<close>

text \<open>The condition of the \<open>if\<close> inside the loop of \<open>checkWallCollision\<close>.\<close>

definition hitsWall :: "player \<Rightarrow> real \<Rightarrow> real \<Rightarrow> wall \<Rightarrow> bool" where
  "hitsWall p newX newY wall \<longleftrightarrow>
     newX < w_x wall + w_width wall \<and>
     newX + p_size p > w_x wall \<and>
     newY < w_y wall + w_height wall \<and>
     newY + p_size p > w_y wall"

fun wallLoop :: "player \<Rightarrow> real \<Rightarrow> real \<Rightarrow> wall list \<Rightarrow> bool" where
  "wallLoop p newX newY [] = False"
| "wallLoop p newX newY (wall # ws) =
     (if hitsWall p newX newY wall then True else wallLoop p newX newY ws)"

definition checkWallCollision :: "state \<Rightarrow> real \<Rightarrow> real \<Rightarrow> bool" where
  "checkWallCollision s newX newY = wallLoop (player s) newX newY (walls s)"

text \<open>The condition of the \<open>if\<close> inside the loop of \<open>checkHazardCollision\<close>.\<close>

definition hitsHazard :: "player \<Rightarrow> hazard \<Rightarrow> bool" where
  "hitsHazard p hazard \<longleftrightarrow>
     p_x p < h_x hazard + h_width hazard \<and>
     p_x p + p_size p > h_x hazard \<and>
     p_y p < h_y hazard + h_height hazard \<and>
     p_y p + p_size p > h_y hazard"

fun hazardLoop :: "player \<Rightarrow> hazard list \<Rightarrow> bool" where
  "hazardLoop p [] = False"
| "hazardLoop p (hazard # hs) =
     (if hitsHazard p hazard then True else hazardLoop p hs)"

definition checkHazardCollision :: "state \<Rightarrow> bool" where
  "checkHazardCollision s = hazardLoop (player s) (hazards s)"

definition checkGoalReached :: "state \<Rightarrow> bool" where
  "checkGoalReached s =
     (let p = player s;
          dist = sqrt ((p_x p + p_size p / 2 - (g_x goal + g_size goal / 2))\<^sup>2 +
                       (p_y p + p_size p / 2 - (g_y goal + g_size goal / 2))\<^sup>2)
      in dist < p_size p / 2 + g_size goal / 2)"

subsection \<open>Double arithmetic\<close>

text \<open>
  \<open>rne y\<close> is the integer nearest to \<open>y\<close>, the even one of the two when \<open>y\<close> lies
  halfway.
\<close>

definition rne :: "real \<Rightarrow> int" where
  "rne y =
     (let f = \<lfloor>y\<rfloor>; d = y - of_int f
      in if d < 1/2 then f else if 1/2 < d then f + 1 else if even f then f else f + 1)"

text \<open>
  A double has a mantissa of 53 bits. \<open>roundDouble x\<close> scales \<open>x\<close> by a power of two
  until its magnitude lies between \<open>2^52 = 4503599627370496\<close> and
  \<open>2^53 = 9007199254740992\<close>, rounds to the nearest integer and scales back. The
  exponent has no bound here: infinities, NaN and subnormal numbers, which need a
  magnitude of \<open>2^1024\<close> and more or of less than \<open>2^-1022\<close>, are left out.
\<close>

function roundDouble :: "real \<Rightarrow> real" where
  "roundDouble x =
     (if x = 0 then 0
      else if 9007199254740992 \<le> \<bar>x\<bar> then 2 * roundDouble (x / 2)
      else if \<bar>x\<bar> < 4503599627370496 then roundDouble (x * 2) / 2
      else of_int (rne x))"
  by pat_completeness auto
termination
proof (relation "measure (\<lambda>x. nat \<lceil>\<bar>x\<bar> / 4503599627370496\<rceil> +
                               2 * nat \<lceil>4503599627370496 / \<bar>x\<bar>\<rceil>)")
  show "wf (measure (\<lambda>x. nat \<lceil>\<bar>x\<bar> / 4503599627370496\<rceil> +
                         2 * nat \<lceil>4503599627370496 / \<bar>x\<bar>\<rceil>))"
    by simp
next
  fix x :: real
  assume x0: "x \<noteq> 0" and big: "9007199254740992 \<le> \<bar>x\<bar>"
  define y where "y = \<bar>x\<bar> / 4503599627370496"
  have y2: "2 \<le> y" using big by (simp add: y_def)
  have a: "\<bar>x / 2\<bar> / 4503599627370496 = y / 2" "\<bar>x\<bar> / 4503599627370496 = y"
    by (simp_all add: y_def)
  have b: "4503599627370496 / \<bar>x / 2\<bar> = 2 / y" "4503599627370496 / \<bar>x\<bar> = 1 / y"
    using x0 by (simp_all add: y_def)
  have "y / 2 \<le> y - 1" using y2 by simp
  then have "\<lceil>y / 2\<rceil> \<le> \<lceil>y - 1\<rceil>" by (rule ceiling_mono)
  then have c1: "\<lceil>y / 2\<rceil> < \<lceil>y\<rceil>" by simp
  have "0 < \<lceil>y / 2\<rceil>" using y2 by (simp add: ceiling_less_iff)
  then have d1: "nat \<lceil>y / 2\<rceil> < nat \<lceil>y\<rceil>" using c1 by simp
  have "\<lceil>2 / y\<rceil> = 1" using y2 by (intro ceiling_unique) simp_all
  moreover have "\<lceil>1 / y\<rceil> = 1" using y2 by (intro ceiling_unique) simp_all
  ultimately show "(x / 2, x) \<in> measure (\<lambda>x. nat \<lceil>\<bar>x\<bar> / 4503599627370496\<rceil> +
                                          2 * nat \<lceil>4503599627370496 / \<bar>x\<bar>\<rceil>)"
    using d1 unfolding in_measure a b by simp
next
  fix x :: real
  assume x0: "x \<noteq> 0" and "\<not> 9007199254740992 \<le> \<bar>x\<bar>"
    and small: "\<bar>x\<bar> < 4503599627370496"
  define y where "y = \<bar>x\<bar> / 4503599627370496"
  have y1: "0 < y" "y < 1" using small x0 by (simp_all add: y_def)
  have a: "\<bar>x * 2\<bar> / 4503599627370496 = y * 2" "\<bar>x\<bar> / 4503599627370496 = y"
    by (simp_all add: y_def)
  have b: "4503599627370496 / \<bar>x * 2\<bar> = (1 / y) / 2" "4503599627370496 / \<bar>x\<bar> = 1 / y"
    using x0 by (simp_all add: y_def)
  have c1: "\<lceil>y\<rceil> = 1" using y1 by (intro ceiling_unique) simp_all
  have "y * 2 \<le> 2" using y1 by simp
  then have "\<lceil>y * 2\<rceil> \<le> \<lceil>2 :: real\<rceil>" by (rule ceiling_mono)
  then have c2: "\<lceil>y * 2\<rceil> \<le> 2" by simp
  define n where "n = \<lceil>1 / y\<rceil>"
  define m where "m = \<lceil>(1 / y) / 2\<rceil>"
  define u where "u = \<lceil>y * 2\<rceil>"
  have u2: "u \<le> 2" using c2 by (simp add: u_def)
  have "1 < 1 / y" using y1 by simp
  then have n2: "2 \<le> n" unfolding n_def by (simp add: le_ceiling_iff)
  have "1 / y \<le> of_int n" unfolding n_def by (rule le_of_int_ceiling)
  then have "(1 / y) / 2 \<le> of_int n / 2" by simp
  also have "\<dots> \<le> of_int (n - 1)" using n2 by simp
  finally have "(1 / y) / 2 \<le> of_int (n - 1)" .
  then have m1: "m \<le> n - 1" unfolding m_def by (rule ceiling_le)
  have m0: "0 < m" using y1 by (simp add: m_def ceiling_less_iff)
  have "nat u + 2 * nat m < nat 1 + 2 * nat n" using u2 m1 m0 n2 by arith
  then show "(x * 2, x) \<in> measure (\<lambda>x. nat \<lceil>\<bar>x\<bar> / 4503599627370496\<rceil> +
                                          2 * nat \<lceil>4503599627370496 / \<bar>x\<bar>\<rceil>)"
    unfolding in_measure a b c1 m_def n_def u_def .
qed

declare roundDouble.simps [simp del]

text \<open>The four operations of the script on doubles.\<close>

definition fadd :: "real \<Rightarrow> real \<Rightarrow> real" where
  "fadd a b = roundDouble (a + b)"

definition fsub :: "real \<Rightarrow> real \<Rightarrow> real" where
  "fsub a b = roundDouble (a - b)"

definition fmul :: "real \<Rightarrow> real \<Rightarrow> real" where
  "fmul a b = roundDouble (a * b)"

definition fdiv :: "real \<Rightarrow> real \<Rightarrow> real" where
  "fdiv a b = roundDouble (a / b)"

subsection \<open>Particles\<close>

text \<open>
  One confetti particle; \<open>r1 \<dots> r4\<close> are the four random numbers its object literal
  draws, in the order of its fields. The colour string \<open>hsl(h, 70%, 60%)\<close> is
  represented by its hue \<open>h\<close>.
\<close>

definition newParticle :: "real \<Rightarrow> real \<Rightarrow> real \<Rightarrow> real \<Rightarrow> particle" where
  "newParticle r1 r2 r3 r4 =
     \<lparr>pt_x = fdiv canvas_width 2,
      pt_y = fdiv canvas_height 2,
      vx = fmul (fsub r1 (1/2)) 10,
      vy = fsub (fmul (fsub r2 (1/2)) 10) 5,
      color = fmul r3 360,
      pt_size = fadd (fmul r4 5) 2,
      life = 1\<rparr>"

fun confettiLoop :: "(nat \<Rightarrow> real) \<Rightarrow> nat \<Rightarrow> nat \<Rightarrow> particle list \<Rightarrow> particle list" where
  "confettiLoop rnd i 0 ps = ps"
| "confettiLoop rnd i (Suc n) ps =
     confettiLoop rnd (Suc i) n
       (ps @ [newParticle (rnd (4 * i)) (rnd (4 * i + 1)) (rnd (4 * i + 2)) (rnd (4 * i + 3))])"

text \<open>\<open>confettiLoop rnd i n\<close> runs the iterations \<open>i, \<dots>, i + n - 1\<close> of the loop.\<close>

definition createConfetti :: "(nat \<Rightarrow> real) \<Rightarrow> particle list \<Rightarrow> particle list" where
  "createConfetti rnd ps = confettiLoop rnd 0 50 ps"

definition stepParticle :: "particle \<Rightarrow> particle" where
  "stepParticle p =
     p\<lparr>pt_x := fadd (pt_x p) (vx p),
       pt_y := fadd (pt_y p) (vy p),
       vy := fadd (vy p) (roundDouble (3/10)),
       life := fsub (life p) (roundDouble (2/100))\<rparr>"

text \<open>
  \<open>updateParticles\<close> walks the array from its last index down to 0 and splices dead
  particles out while it walks. \<open>particleLoop (Suc i) ps\<close> is the loop about to handle
  index \<open>i\<close>; the guard spells out that JavaScript reads \<open>undefined\<close> beyond the end (and
  the script would stop there), which never happens since the loop starts at
  \<open>length - 1\<close> and a splice at \<open>i\<close> only moves elements above \<open>i\<close>.
\<close>

fun particleLoop :: "nat \<Rightarrow> particle list \<Rightarrow> particle list" where
  "particleLoop 0 ps = ps"
| "particleLoop (Suc i) ps =
     (if i < length ps then
        (let p = stepParticle (ps ! i) in
         if life p \<le> 0 then particleLoop i (take i ps @ drop (Suc i) ps)
         else particleLoop i (ps[i := p]))
      else ps)"

definition updateParticles :: "particle list \<Rightarrow> particle list" where
  "updateParticles ps = particleLoop (length ps) ps"

subsection \<open>Moving the player\<close>

text \<open>The candidate position \<open>newX\<close>, \<open>newY\<close> computed at the start of \<open>movePlayer\<close>.\<close>

definition newX :: "real \<Rightarrow> state \<Rightarrow> real" where
  "newX dx s = p_x (player s) + dx * p_speed (player s)"

definition newY :: "real \<Rightarrow> state \<Rightarrow> real" where
  "newY dy s = p_y (player s) + dy * p_speed (player s)"

definition movePlayer :: "(nat \<Rightarrow> real) \<Rightarrow> real \<Rightarrow> real \<Rightarrow> state \<Rightarrow> state" where
  "movePlayer rnd dx dy s =
     (if gameState s \<noteq> Playing then s
      else
        if \<not> checkWallCollision s (newX dx s) (newY dy s) then
          let s1 = s\<lparr>player := (player s)\<lparr>p_x := newX dx s, p_y := newY dy s,
                                           steps := steps (player s) + 1,
                                           energy := energy (player s) - 1\<rparr>\<rparr>;
              s2 = (if energy (player s1) \<le> 0 then s1\<lparr>gameState := Lost\<rparr> else s1);
              s3 = (if checkGoalReached s2
                    then s2\<lparr>gameState := Won,
                            particles := createConfetti rnd (particles s2)\<rparr>
                    else s2)
          in s3
        else s)"

subsection \<open>Hazards\<close>

definition moveHazard :: "hazard \<Rightarrow> hazard" where
  "moveHazard hazard =
     (let h1 = hazard\<lparr>h_x := h_x hazard + speedX hazard * direction hazard\<rparr>
      in if h_x h1 < 30 \<or> h_x h1 + h_width h1 > 770
         then h1\<lparr>direction := direction h1 * (-1)\<rparr>
         else h1)"

definition updateHazards :: "hazard list \<Rightarrow> hazard list" where
  "updateHazards hs = map moveHazard hs"

subsection \<open>The frame callback\<close>

definition gameLoop :: "state \<Rightarrow> state" where
  "gameLoop s0 =
     (let s = (if shakeAmount s0 > 0
               then (let a = fmul (shakeAmount s0) (roundDouble (9/10))
                     in s0\<lparr>shakeAmount := (if a < roundDouble (1/10) then 0 else a)\<rparr>)
               else s0)
      in
        if gameState s = Playing then
          let s1 = s\<lparr>hazards := updateHazards (hazards s),
                     particles := updateParticles (particles s)\<rparr>
          in
            if checkHazardCollision s1 then
              let s2 = s1\<lparr>player := (player s1)\<lparr>energy := energy (player s1) - 10\<rparr>,
                          shakeAmount := 10\<rparr>
              in if energy (player s2) \<le> 0
                 then s2\<lparr>player := (player s2)\<lparr>energy := 0\<rparr>, gameState := Lost\<rparr>
                 else s2
            else s1
        else if gameState s = Won then s\<lparr>particles := updateParticles (particles s)\<rparr>
        else s)"

subsection \<open>Screens, buttons and keys\<close>

definition showTitleScreen :: "state \<Rightarrow> state" where
  "showTitleScreen s = s\<lparr>gameState := Title\<rparr>"

definition startGame :: "state \<Rightarrow> state" where
  "startGame s = (resetGame s)\<lparr>gameState := Playing\<rparr>"

definition toggleMute :: "state \<Rightarrow> state" where
  "toggleMute s = s\<lparr>isMuted := \<not> isMuted s\<rparr>"

text \<open>The \<open>keydown\<close> listener; \<open>key\<close> is \<open>e.key\<close>.\<close>

definition keydown :: "(nat \<Rightarrow> real) \<Rightarrow> string \<Rightarrow> state \<Rightarrow> state" where
  "keydown rnd key s =
     (let s1 = (if key = ''w'' \<or> key = ''ArrowUp'' then movePlayer rnd 0 (-1) s
                else if key = ''s'' \<or> key = ''ArrowDown'' then movePlayer rnd 0 1 s
                else if key = ''a'' \<or> key = ''ArrowLeft'' then movePlayer rnd (-1) 0 s
                else if key = ''d'' \<or> key = ''ArrowRight'' then movePlayer rnd 1 0 s
                else s);
          s2 = (if key = ''r'' \<or> key = ''R''
                then (if gameState s1 = Playing then resetGame s1 else s1)
                else s1)
      in if key = ''m'' \<or> key = ''M'' then toggleMute s2 else s2)"

text \<open>
  The states a session can be in: the loaded script, followed by any sequence of frames,
  key presses and button clicks (play, play again and retry call \<open>startGame\<close>, back
  calls \<open>showTitleScreen\<close>; the how-to-play button only changes the DOM). Which buttons
  are visible is part of the DOM, so a click on any button is allowed at any time; this
  can only add states.
\<close>

inductive reachable :: "state \<Rightarrow> bool" where
  r_init: "reachable initialState"
| r_frame: "reachable s \<Longrightarrow> reachable (gameLoop s)"
| r_key: "reachable s \<Longrightarrow> reachable (keydown rnd key s)"
| r_start: "reachable s \<Longrightarrow> reachable (startGame s)"
| r_title: "reachable s \<Longrightarrow> reachable (showTitleScreen s)"
| r_mute: "reachable s \<Longrightarrow> reachable (toggleMute s)"

text \<open>\<open>frames n\<close> is \<open>n\<close> consecutive calls of the frame callback.\<close>

fun frames :: "nat \<Rightarrow> state \<Rightarrow> state" where
  "frames 0 s = s"
| "frames (Suc n) s = frames n (gameLoop s)"

section \<open>Notions used in the statements\<close>

text \<open>The player record a successful move stores.\<close>

definition movedPlayer :: "real \<Rightarrow> real \<Rightarrow> state \<Rightarrow> player" where
  "movedPlayer dx dy s =
     (player s)\<lparr>p_x := newX dx s, p_y := newY dy s,
                steps := steps (player s) + 1, energy := energy (player s) - 1\<rparr>"

text \<open>A source of random numbers that always returns one half.\<close>

definition rndHalf :: "nat \<Rightarrow> real" where
  "rndHalf k = 1/2"

text \<open>
  A state of a round with one unit of energy left and the player one step to the left of
  the goal, written down directly. It is a state a test would set up; the last
  subsection shows that in a session that starts at the spawn position a winning move
  always leaves an odd energy.
\<close>

definition nearGoal :: state where
  "nearGoal = initialState\<lparr>gameState := Playing,
     player := (player initialState)\<lparr>p_x := 690, p_y := 70, energy := 1, steps := 99\<rparr>\<rparr>"

text \<open>\<open>moveTimes n rnd dx dy\<close> is \<open>n\<close> calls \<open>movePlayer(dx, dy)\<close> in a row.\<close>

fun moveTimes :: "nat \<Rightarrow> (nat \<Rightarrow> real) \<Rightarrow> real \<Rightarrow> real \<Rightarrow> state \<Rightarrow> state" where
  "moveTimes 0 rnd dx dy s = s"
| "moveTimes (Suc n) rnd dx dy s = moveTimes n rnd dx dy (movePlayer rnd dx dy s)"

subsection \<open>Frames and hazard contact\<close>

text \<open>
  The value \<open>checkHazardCollision()\<close> returns inside the frame that starts in \<open>s\<close>:
  the hazards have moved by then, the player has not.
\<close>

definition hazardContact :: "state \<Rightarrow> bool" where
  "hazardContact s = hazardLoop (player s) (updateHazards (hazards s))"

text \<open>The hazards that overlap the player in the frame that starts in \<open>s\<close>.\<close>

definition overlapping :: "state \<Rightarrow> hazard list" where
  "overlapping s = filter (hitsHazard (player s)) (updateHazards (hazards s))"

text \<open>
  The next \<open>k\<close> frames are all run in state \<open>Playing\<close> and in each of them the player
  overlaps a hazard.
\<close>

fun contactFrames :: "nat \<Rightarrow> state \<Rightarrow> bool" where
  "contactFrames 0 s = True"
| "contactFrames (Suc k) s =
     (gameState s = Playing \<and> hazardContact s \<and> contactFrames k (gameLoop s))"

subsection \<open>Example states\<close>

text \<open>
  A round is started and the player walks five steps right and four up, to
  \<open>(250, 390)\<close>, into the lane of the second hazard. After 13 frames the hazard is
  about to arrive (\<open>inContact\<close>); after 22 frames it has hit nine times and one unit of
  energy is left (\<open>lowEnergy\<close>).
\<close>

definition besideHazard :: state where
  "besideHazard = moveTimes 4 rndHalf 0 (-1) (moveTimes 5 rndHalf 1 0 (startGame initialState))"

definition inContact :: state where
  "inContact = frames 13 besideHazard"

definition lowEnergy :: state where
  "lowEnergy = frames 22 besideHazard"

text \<open>A state where two hazards lie over the player at the spawn position.\<close>

definition twoHazards :: state where
  "twoHazards = (startGame initialState)
     \<lparr>hazards := [mkHazard 40 540 100 20 2 0 1, mkHazard 30 560 120 20 (3/2) 0 1]\<rparr>"

text \<open>63 frames into a round the third hazard is one frame from the right margin.\<close>

definition beforeFlip :: state where
  "beforeFlip = frames 63 (startGame initialState)"

text \<open>
  A walk of 42 steps through the maze from the spawn position to \<open>(690, 70)\<close>, one step
  left of the goal, and the winning step.
\<close>

definition beforeGoal :: state where
  "beforeGoal =
     moveTimes 9 rndHalf 0 (-1) (moveTimes 3 rndHalf 1 0 (moveTimes 7 rndHalf 0 1
       (moveTimes 5 rndHalf 1 0 (moveTimes 10 rndHalf 0 (-1) (moveTimes 8 rndHalf 1 0
         (startGame initialState))))))"

definition atGoal :: state where
  "atGoal = movePlayer rndHalf 1 0 beforeGoal"

subsection \<open>Invariants\<close>

text \<open>The energy is never negative, and is positive while the round is being played.\<close>

definition energy_ok :: "state \<Rightarrow> bool" where
  "energy_ok s \<longleftrightarrow> 0 \<le> energy (player s) \<and> (gameState s = Playing \<longrightarrow> 1 \<le> energy (player s))"

text \<open>
  What holds of every hazard between two frames: its speed is not negative, its direction
  is a sign, it is at most one frame's travel beyond a margin, and when it is beyond a
  margin it is already heading back.
\<close>

definition hazard_ok :: "hazard \<Rightarrow> bool" where
  "hazard_ok h \<longleftrightarrow>
     0 \<le> speedX h \<and> (direction h = 1 \<or> direction h = -1) \<and>
     30 - speedX h \<le> h_x h \<and> h_x h + h_width h \<le> 770 + speedX h \<and>
     (h_x h < 30 \<longrightarrow> direction h = 1) \<and>
     (h_x h + h_width h > 770 \<longrightarrow> direction h = -1)"

text \<open>Two hazards agree in everything but position and direction.\<close>

definition same_shape :: "hazard \<Rightarrow> hazard \<Rightarrow> bool" where
  "same_shape h h' \<longleftrightarrow>
     h_y h = h_y h' \<and> h_width h = h_width h' \<and> h_height h = h_height h' \<and>
     speedX h = speedX h' \<and> speedY h = speedY h'"

definition hazards_ok :: "state \<Rightarrow> bool" where
  "hazards_ok s \<longleftrightarrow> list_all2 (\<lambda>h h'. same_shape h h' \<and> hazard_ok h) (hazards s) initialHazards"


text \<open>While the round is being played there are no particles.\<close>

definition no_particles :: "state \<Rightarrow> bool" where
  "no_particles s \<longleftrightarrow> (gameState s = Playing \<longrightarrow> particles s = [])"

text \<open>
  The life of a particle of a burst after \<open>k\<close> updates, and its 51 first values
  written out: they are multiples of \<open>2^-58 = 1 / 288230376151711744\<close>.
\<close>

fun burstLife :: "nat \<Rightarrow> real" where
  "burstLife 0 = 1"
| "burstLife (Suc k) = fsub (burstLife k) (roundDouble (2/100))"

definition burstNumerators :: "int list" where
  "burstNumerators =
     [288230376151711744, 282465768628677504, 276701161105643264,
      270936553582609024, 265171946059574784, 259407338536540544,
      253642731013506304, 247878123490472064, 242113515967437824,
      236348908444403584, 230584300921369344, 224819693398335104,
      219055085875300864, 213290478352266624, 207525870829232384,
      201761263306198144, 195996655783163904, 190232048260129664,
      184467440737095424, 178702833214061184, 172938225691026944,
      167173618167992704, 161409010644958464, 155644403121924224,
      149879795598889984, 144115188075855744, 138350580552821504,
      132585973029787264, 126821365506753024, 121056757983718784,
      115292150460684544, 109527542937650304, 103762935414616064,
      97998327891581824, 92233720368547584, 86469112845513344,
      80704505322479104, 74939897799444864, 69175290276410632,
      63410682753376400, 57646075230342168, 51881467707307936,
      46116860184273704, 40352252661239472, 34587645138205236,
      28823037615171000, 23058430092136764, 17293822569102528,
      11529215046068292, 5764607523034057, -178]"

definition burstLives :: "real list" where
  "burstLives = map (\<lambda>n. real_of_int n / 288230376151711744) burstNumerators"

text \<open>Each element of a list is the one before it after one update of the life.\<close>

fun decays :: "real list \<Rightarrow> bool" where
  "decays (a # b # xs) = (fsub a (roundDouble (2/100)) = b \<and> decays (b # xs))"
| "decays xs = True"

text \<open>All particles of a list have the life \<open>L\<close>.\<close>

definition uniform :: "real \<Rightarrow> particle list \<Rightarrow> bool" where
  "uniform L ps \<longleftrightarrow> (\<forall>p \<in> set ps. life p = L)"

subsection \<open>Margins\<close>

text \<open>
  The test of \<open>updateHazards\<close> on a position, and a frame in which the hazard goes from
  within a margin to beyond it.
\<close>

definition beyondMargin :: "hazard \<Rightarrow> bool" where
  "beyondMargin h \<longleftrightarrow> h_x h < 30 \<or> h_x h + h_width h > 770"

definition crossesMargin :: "hazard \<Rightarrow> bool" where
  "crossesMargin h \<longleftrightarrow>
     (30 \<le> h_x h \<and> h_x (moveHazard h) < 30) \<or>
     (h_x h + h_width h \<le> 770 \<and> h_x (moveHazard h) + h_width h > 770)"

subsection \<open>Rectangles as sets of points\<close>

text \<open>
  The rectangle with corner \<open>(x, y)\<close>, width \<open>w\<close> and height \<open>h\<close>, as a set of points:
  with its boundary, and its interior.
\<close>

definition closedBox :: "real \<Rightarrow> real \<Rightarrow> real \<Rightarrow> real \<Rightarrow> (real \<times> real) set" where
  "closedBox x y w h = {(a, b). x \<le> a \<and> a \<le> x + w \<and> y \<le> b \<and> b \<le> y + h}"

definition openBox :: "real \<Rightarrow> real \<Rightarrow> real \<Rightarrow> real \<Rightarrow> (real \<times> real) set" where
  "openBox x y w h = {(a, b). x < a \<and> a < x + w \<and> y < b \<and> b < y + h}"

text \<open>
  Two rectangles of positive width and height merely touch when they share a point but
  their interiors share none.
\<close>

definition touching ::
  "real \<Rightarrow> real \<Rightarrow> real \<Rightarrow> real \<Rightarrow> real \<Rightarrow> real \<Rightarrow> real \<Rightarrow> real \<Rightarrow> bool" where
  "touching x y w h x' y' w' h' \<longleftrightarrow>
     0 < w \<and> 0 < h \<and> 0 < w' \<and> 0 < h' \<and>
     closedBox x y w h \<inter> closedBox x' y' w' h' \<noteq> {} \<and>
     openBox x y w h \<inter> openBox x' y' w' h' = {}"

section \<open>Facts about the operations\<close>

lemmas eval_defs = initialState_def checkWallCollision_def initialWalls_def mkWall_def hitsWall_def
  goal_def Let_def newX_def newY_def initialHazards_def mkHazard_def


subsection \<open>The goal test and the move\<close>

lemma wallLoop_iff:
  "wallLoop p x y ws \<longleftrightarrow> (\<exists>wall \<in> set ws. hitsWall p x y wall)"
  by (induction ws) auto

lemma checkWallCollision_iff:
  "checkWallCollision s x y \<longleftrightarrow> (\<exists>wall \<in> set (walls s). hitsWall (player s) x y wall)"
  by (simp add: checkWallCollision_def wallLoop_iff)

lemma hazardLoop_iff:
  "hazardLoop p hs \<longleftrightarrow> (\<exists>hazard \<in> set hs. hitsHazard p hazard)"
  by (induction hs) auto

lemma checkHazardCollision_iff:
  "checkHazardCollision s \<longleftrightarrow> (\<exists>hazard \<in> set (hazards s). hitsHazard (player s) hazard)"
  by (simp add: checkHazardCollision_def hazardLoop_iff)

lemma checkGoalReached_iff:
  "checkGoalReached s \<longleftrightarrow>
     (p_x (player s) + p_size (player s) / 2 - (g_x goal + g_size goal / 2))\<^sup>2 +
     (p_y (player s) + p_size (player s) / 2 - (g_y goal + g_size goal / 2))\<^sup>2
       < (p_size (player s) / 2 + g_size goal / 2)\<^sup>2
     \<and> 0 < p_size (player s) / 2 + g_size goal / 2"
  (is "_ \<longleftrightarrow> ?a < ?r\<^sup>2 \<and> 0 < ?r")
proof -
  have a0: "0 \<le> ?a" by simp
  have "sqrt ?a < ?r \<longleftrightarrow> ?a < ?r\<^sup>2 \<and> 0 < ?r"
  proof
    assume h: "sqrt ?a < ?r"
    have s0: "0 \<le> sqrt ?a" using a0 by simp
    have r0: "0 < ?r" using h s0 by linarith
    have "(sqrt ?a)\<^sup>2 < ?r\<^sup>2"
      using h s0 by (rule power_strict_mono) simp
    then show "?a < ?r\<^sup>2 \<and> 0 < ?r" using r0 a0 by simp
  next
    assume h: "?a < ?r\<^sup>2 \<and> 0 < ?r"
    then show "sqrt ?a < ?r" by (simp add: real_less_lsqrt)
  qed
  then show ?thesis by (simp add: checkGoalReached_def Let_def)
qed

lemma checkGoalReached_player:
  "player s' = player s \<Longrightarrow> checkGoalReached s' = checkGoalReached s"
  by (simp add: checkGoalReached_def)

lemma movePlayer_blocked:
  "checkWallCollision s (newX dx s) (newY dy s) \<Longrightarrow> movePlayer rnd dx dy s = s"
  by (simp add: movePlayer_def)

lemma movePlayer_not_playing:
  "gameState s \<noteq> Playing \<Longrightarrow> movePlayer rnd dx dy s = s"
  by (simp add: movePlayer_def)

lemma movePlayer_player:
  assumes "gameState s = Playing" and "\<not> checkWallCollision s (newX dx s) (newY dy s)"
  shows "player (movePlayer rnd dx dy s) = movedPlayer dx dy s"
  using assms by (simp add: movePlayer_def movedPlayer_def Let_def)

lemma goal_after_move:
  assumes "gameState s = Playing" and "\<not> checkWallCollision s (newX dx s) (newY dy s)"
  shows "checkGoalReached (movePlayer rnd dx dy s) = checkGoalReached (s\<lparr>player := movedPlayer dx dy s\<rparr>)"
  by (rule checkGoalReached_player) (simp add: movePlayer_player [OF assms])

lemma movePlayer_gameState:
  assumes "gameState s = Playing" and "\<not> checkWallCollision s (newX dx s) (newY dy s)"
  shows "gameState (movePlayer rnd dx dy s) =
           (if checkGoalReached (movePlayer rnd dx dy s) then Won
            else if energy (player s) - 1 \<le> 0 then Lost else Playing)"
proof -
  let ?s1 = "s\<lparr>player := movedPlayer dx dy s\<rparr>"
  have g: "checkGoalReached (movePlayer rnd dx dy s) = checkGoalReached ?s1"
    by (rule goal_after_move [OF assms])
  have "checkGoalReached (?s1\<lparr>gameState := Lost\<rparr>) = checkGoalReached ?s1"
    by (rule checkGoalReached_player) simp
  then show ?thesis
    unfolding g using assms
    by (simp add: movePlayer_def movedPlayer_def Let_def)
qed

lemma movePlayer_particles:
  assumes "gameState s = Playing" and "\<not> checkWallCollision s (newX dx s) (newY dy s)"
  shows "particles (movePlayer rnd dx dy s) =
           (if checkGoalReached (movePlayer rnd dx dy s)
            then createConfetti rnd (particles s) else particles s)"
proof -
  let ?s1 = "s\<lparr>player := movedPlayer dx dy s\<rparr>"
  have g: "checkGoalReached (movePlayer rnd dx dy s) = checkGoalReached ?s1"
    by (rule goal_after_move [OF assms])
  have "checkGoalReached (?s1\<lparr>gameState := Lost\<rparr>) = checkGoalReached ?s1"
    by (rule checkGoalReached_player) simp
  then show ?thesis
    unfolding g using assms
    by (simp add: movePlayer_def movedPlayer_def Let_def)
qed

lemma nearGoal_playing: "gameState nearGoal = Playing"
  by (simp add: nearGoal_def)

lemma nearGoal_energy: "energy (player nearGoal) = 1"
  by (simp add: nearGoal_def initialState_def)

lemma nearGoal_free: "\<not> checkWallCollision nearGoal (newX 1 nearGoal) (newY 0 nearGoal)"
  by (simp add: nearGoal_def eval_defs)

lemma nearGoal_goal: "checkGoalReached (movePlayer rnd 1 0 nearGoal)"
  unfolding goal_after_move [OF nearGoal_playing nearGoal_free]
  by (simp add: checkGoalReached_iff movedPlayer_def nearGoal_def eval_defs)

text \<open>
  Claim C1. A successful move that takes the energy from 1 to 0 and after which the goal
  test holds ends in state \<open>Won\<close>: the energy check, which runs first, sets \<open>Lost\<close>,
  and the goal check, which runs after it, overwrites the state with \<open>Won\<close>. The last
  equation writes the two assignments in the order the code makes them.
\<close>

theorem movePlayer_goal_overrides_lost:
  assumes "gameState s = Playing"
    and "\<not> checkWallCollision s (newX dx s) (newY dy s)"
    and "energy (player s) = 1"
    and "checkGoalReached (movePlayer rnd dx dy s)"
  shows "energy (player (movePlayer rnd dx dy s)) = 0 \<and>
         gameState (movePlayer rnd dx dy s) = Won \<and>
         movePlayer rnd dx dy s =
           s\<lparr>player := movedPlayer dx dy s, gameState := Lost\<rparr>
            \<lparr>gameState := Won, particles := createConfetti rnd (particles s)\<rparr>"
proof -
  have g: "checkGoalReached (s\<lparr>player := movedPlayer dx dy s\<rparr>)"
    using assms(4) goal_after_move [OF assms(1,2)] by simp
  have "checkGoalReached (s\<lparr>player := movedPlayer dx dy s, gameState := Lost\<rparr>)
          = checkGoalReached (s\<lparr>player := movedPlayer dx dy s\<rparr>)"
    by (rule checkGoalReached_player) simp
  then have "movePlayer rnd dx dy s =
           s\<lparr>player := movedPlayer dx dy s, gameState := Lost\<rparr>
            \<lparr>gameState := Won, particles := createConfetti rnd (particles s)\<rparr>"
    using assms(1-3) g by (simp add: movePlayer_def movedPlayer_def Let_def)
  then show ?thesis
    using assms(3) by (simp add: movedPlayer_def)
qed

theorem movePlayer_goal_overrides_lost_witness:
  "gameState nearGoal = Playing \<and> energy (player nearGoal) = 1
   \<and> \<not> checkWallCollision nearGoal (newX 1 nearGoal) (newY 0 nearGoal)
   \<and> checkGoalReached (movePlayer rndHalf 1 0 nearGoal)
   \<and> energy (player (movePlayer rndHalf 1 0 nearGoal)) = 0
   \<and> gameState (movePlayer rndHalf 1 0 nearGoal) = Won"
proof -
  note t = movePlayer_goal_overrides_lost [OF nearGoal_playing nearGoal_free nearGoal_energy
      nearGoal_goal [of rndHalf]]
  have "energy (player (movePlayer rndHalf 1 0 nearGoal)) = 0"
    "gameState (movePlayer rndHalf 1 0 nearGoal) = Won"
    using t by blast+
  then show ?thesis
    using nearGoal_playing nearGoal_free nearGoal_energy nearGoal_goal [of rndHalf] by blast
qed

text \<open>
  Claim C4. A move whose candidate box overlaps some wall changes nothing: the state
  after the call is the state before it, so position, energy and step counter are
  unchanged.
\<close>

theorem wall_collision_rejects_move:
  assumes "wall \<in> set (walls s)"
    and "hitsWall (player s) (newX dx s) (newY dy s) wall"
  shows "movePlayer rnd dx dy s = s"
proof -
  have "checkWallCollision s (newX dx s) (newY dy s)"
    using assms by (auto simp: checkWallCollision_iff)
  then show ?thesis by (rule movePlayer_blocked)
qed

theorem wall_collision_rejects_move_witness:
  "mkWall 0 0 20 600 \<in> set (walls (startGame initialState))
   \<and> hitsWall (player (startGame initialState)) (newX (-1) (startGame initialState))
        (newY 0 (startGame initialState)) (mkWall 0 0 20 600)
   \<and> movePlayer rndHalf (-1) 0 (startGame initialState) = startGame initialState"
proof -
  have w: "mkWall 0 0 20 600 \<in> set (walls (startGame initialState))"
    by (simp add: startGame_def resetGame_def initialState_def initialWalls_def)
  have h: "hitsWall (player (startGame initialState)) (newX (-1) (startGame initialState))
        (newY 0 (startGame initialState)) (mkWall 0 0 20 600)"
    by (simp add: startGame_def resetGame_def initialState_def newX_def newY_def
        hitsWall_def mkWall_def)
  show ?thesis
    using wall_collision_rejects_move [OF w h, of rndHalf] w h by simp
qed

lemma spawn_playing: "gameState (startGame initialState) = Playing"
  by (simp add: startGame_def)

lemma spawn_right_free:
  "\<not> checkWallCollision (startGame initialState) (newX 1 (startGame initialState))
     (newY 0 (startGame initialState))"
  by (simp add: startGame_def resetGame_def eval_defs)

lemma five_right:
  "player (moveTimes 5 rnd 1 0 (startGame initialState)) =
     \<lparr>p_x = 250, p_y = 550, p_size = 30, p_speed = 40, energy = 95, steps = 5\<rparr>"
  by (simp add: eval_nat_numeral movePlayer_def checkGoalReached_iff startGame_def resetGame_def eval_defs)

text \<open>
  Claim C5. A successful move made while playing adds exactly 1 to the step counter and
  takes exactly 1 from the energy; and five moves to the right from the spawn position
  \<open>(50, 550)\<close> lead to position \<open>(250, 550)\<close> with 5 steps and energy 95.
\<close>

theorem successful_move_costs_one:
  "(gameState s = Playing \<and> \<not> checkWallCollision s (newX dx s) (newY dy s) \<longrightarrow>
      steps (player (movePlayer rnd dx dy s)) = steps (player s) + 1 \<and>
      energy (player (movePlayer rnd dx dy s)) = energy (player s) - 1 \<and>
      p_x (player (movePlayer rnd dx dy s)) = newX dx s \<and>
      p_y (player (movePlayer rnd dx dy s)) = newY dy s)
   \<and> p_x (player (startGame initialState)) = 50
   \<and> p_y (player (startGame initialState)) = 550
   \<and> p_x (player (moveTimes 5 rnd 1 0 (startGame initialState))) = 250
   \<and> p_y (player (moveTimes 5 rnd 1 0 (startGame initialState))) = 550
   \<and> steps (player (moveTimes 5 rnd 1 0 (startGame initialState))) = 5
   \<and> energy (player (moveTimes 5 rnd 1 0 (startGame initialState))) = 95"
proof -
  have "steps (player (movePlayer rnd dx dy s)) = steps (player s) + 1 \<and>
      energy (player (movePlayer rnd dx dy s)) = energy (player s) - 1 \<and>
      p_x (player (movePlayer rnd dx dy s)) = newX dx s \<and>
      p_y (player (movePlayer rnd dx dy s)) = newY dy s"
    if "gameState s = Playing" "\<not> checkWallCollision s (newX dx s) (newY dy s)"
    using movePlayer_player [OF that, of rnd] by (simp add: movedPlayer_def)
  moreover have "p_x (player (startGame initialState)) = 50 \<and> p_y (player (startGame initialState)) = 550"
    by (simp add: startGame_def resetGame_def)
  ultimately show ?thesis
    by (simp add: five_right)
qed

theorem successful_move_costs_one_witness:
  "gameState (startGame initialState) = Playing
   \<and> \<not> checkWallCollision (startGame initialState) (newX 1 (startGame initialState))
        (newY 0 (startGame initialState))
   \<and> steps (player (movePlayer rndHalf 1 0 (startGame initialState))) = 1
   \<and> energy (player (movePlayer rndHalf 1 0 (startGame initialState))) = 99
   \<and> p_x (player (movePlayer rndHalf 1 0 (startGame initialState))) = 90"
proof -
  have e: "steps (player (startGame initialState)) = 0"
    "energy (player (startGame initialState)) = 100"
    "newX 1 (startGame initialState) = 90"
    by (simp_all add: startGame_def resetGame_def newX_def initialState_def)
  show ?thesis
    using successful_move_costs_one [of "startGame initialState" 1 0 rndHalf]
      spawn_playing spawn_right_free e
    by simp
qed

subsection \<open>One frame\<close>

lemma gameLoop_not_playing:
  "gameState s \<noteq> Playing \<Longrightarrow>
     player (gameLoop s) = player s \<and> gameState (gameLoop s) = gameState s \<and>
     hazards (gameLoop s) = hazards s \<and> walls (gameLoop s) = walls s"
  by (simp add: gameLoop_def Let_def)

lemma gameLoop_hit:
  assumes "gameState s = Playing" and "hazardContact s"
  shows "energy (player (gameLoop s)) =
           (if energy (player s) - 10 \<le> 0 then 0 else energy (player s) - 10)"
    and "gameState (gameLoop s) = (if energy (player s) - 10 \<le> 0 then Lost else Playing)"
  using assms by (simp_all add: gameLoop_def hazardContact_def checkHazardCollision_def Let_def)

lemma gameLoop_miss:
  assumes "gameState s = Playing" and "\<not> hazardContact s"
  shows "player (gameLoop s) = player s" and "gameState (gameLoop s) = Playing"
  using assms by (simp_all add: gameLoop_def hazardContact_def checkHazardCollision_def Let_def)

lemma gameLoop_playing_hazards:
  "gameState s = Playing \<Longrightarrow> hazards (gameLoop s) = updateHazards (hazards s)"
  by (simp add: gameLoop_def Let_def)

lemma gameLoop_walls: "walls (gameLoop s) = walls s"
  by (simp add: gameLoop_def Let_def)

subsection \<open>Energy in reachable states\<close>

lemma energy_ok_gameLoop: "energy_ok s \<Longrightarrow> energy_ok (gameLoop s)"
proof (cases "gameState s = Playing")
  case False
  assume "energy_ok s"
  then show ?thesis using gameLoop_not_playing [OF False] by (simp add: energy_ok_def)
next
  case True
  assume ok: "energy_ok s"
  show ?thesis
  proof (cases "hazardContact s")
    case True
    show ?thesis
      using gameLoop_hit [OF \<open>gameState s = Playing\<close> True] by (simp add: energy_ok_def)
  next
    case False
    show ?thesis
      using gameLoop_miss [OF \<open>gameState s = Playing\<close> False] ok \<open>gameState s = Playing\<close>
      by (simp add: energy_ok_def)
  qed
qed

lemma energy_ok_movePlayer: "energy_ok s \<Longrightarrow> energy_ok (movePlayer rnd dx dy s)"
proof (cases "gameState s = Playing \<and> \<not> checkWallCollision s (newX dx s) (newY dy s)")
  case False
  assume "energy_ok s"
  then show ?thesis using False movePlayer_blocked movePlayer_not_playing by metis
next
  case True
  assume ok: "energy_ok s"
  have p: "gameState s = Playing" and f: "\<not> checkWallCollision s (newX dx s) (newY dy s)"
    using True by simp_all
  show ?thesis
    using movePlayer_player [OF p f, of rnd] movePlayer_gameState [OF p f, of rnd] ok p
    by (auto simp: energy_ok_def movedPlayer_def)
qed

lemma energy_ok_resetGame: "energy_ok (resetGame s)"
  by (simp add: energy_ok_def resetGame_def)

lemma energy_ok_keydown: "energy_ok s \<Longrightarrow> energy_ok (keydown rnd key s)"
  by (simp add: keydown_def Let_def toggleMute_def energy_ok_movePlayer energy_ok_resetGame)
     (simp add: energy_ok_def)

lemma reachable_energy_ok: "reachable s \<Longrightarrow> energy_ok s"
proof (induction rule: reachable.induct)
  case r_init
  show ?case by (simp add: energy_ok_def initialState_def)
next
  case (r_frame s)
  then show ?case by (simp add: energy_ok_gameLoop)
next
  case (r_key s rnd key)
  then show ?case by (simp add: energy_ok_keydown)
next
  case (r_start s)
  show ?case by (simp add: energy_ok_def startGame_def resetGame_def)
next
  case (r_title s)
  then show ?case by (simp add: energy_ok_def showTitleScreen_def)
next
  case (r_mute s)
  then show ?case by (simp add: energy_ok_def toggleMute_def)
qed

subsection \<open>Reaching the example states\<close>

lemma reachable_frames: "reachable s \<Longrightarrow> reachable (frames n s)"
  by (induction n arbitrary: s) (auto intro: r_frame)

lemma keydown_moves:
  "keydown rnd ''w'' s = movePlayer rnd 0 (-1) s"
  "keydown rnd ''s'' s = movePlayer rnd 0 1 s"
  "keydown rnd ''a'' s = movePlayer rnd (-1) 0 s"
  "keydown rnd ''d'' s = movePlayer rnd 1 0 s"
  by (simp_all add: keydown_def)

lemma reachable_movePlayer:
  assumes "reachable s" and "(dx = 0 \<and> (dy = -1 \<or> dy = 1)) \<or> (dy = 0 \<and> (dx = -1 \<or> dx = 1))"
  shows "reachable (movePlayer rnd dx dy s)"
  using assms(2) r_key [OF assms(1), of rnd "''w''"] r_key [OF assms(1), of rnd "''s''"]
    r_key [OF assms(1), of rnd "''a''"] r_key [OF assms(1), of rnd "''d''"]
  by (auto simp: keydown_moves)

lemma reachable_moveTimes:
  assumes "(dx = 0 \<and> (dy = -1 \<or> dy = 1)) \<or> (dy = 0 \<and> (dx = -1 \<or> dx = 1))"
  shows "reachable s \<Longrightarrow> reachable (moveTimes n rnd dx dy s)"
proof (induction n arbitrary: s)
  case 0
  then show ?case by simp
next
  case (Suc n)
  have "reachable (movePlayer rnd dx dy s)"
    using Suc.prems assms by (rule reachable_movePlayer)
  then show ?case using Suc.IH by simp
qed

lemma reachable_besideHazard: "reachable besideHazard"
  unfolding besideHazard_def
  by (intro reachable_moveTimes r_start r_init) simp_all

lemma reachable_lowEnergy: "reachable lowEnergy"
  unfolding lowEnergy_def by (intro reachable_frames reachable_besideHazard)

lemma updateParticles_Nil: "updateParticles [] = []"
  by (simp add: updateParticles_def)

lemma besideHazard_eq:
  "besideHazard =
     \<lparr>gameState = Playing, isMuted = False,
      player = \<lparr>p_x = 250, p_y = 390, p_size = 30, p_speed = 40, energy = 91, steps = 9\<rparr>,
      walls = initialWalls, hazards = initialHazards, particles = [], shakeAmount = 0\<rparr>"
  unfolding besideHazard_def
  by (simp add: eval_nat_numeral movePlayer_def checkGoalReached_iff startGame_def
      resetGame_def eval_defs)

lemmas frame_defs = gameLoop_def updateHazards_def moveHazard_def checkHazardCollision_def
  hitsHazard_def initialHazards_def mkHazard_def Let_def updateParticles_Nil

lemma lowEnergy_eq:
  "lowEnergy =
     \<lparr>gameState = Playing, isMuted = False,
      player = \<lparr>p_x = 250, p_y = 390, p_size = 30, p_speed = 40, energy = 1, steps = 9\<rparr>,
      walls = initialWalls,
      hazards = [mkHazard 144 200 100 20 2 0 1, mkHazard 267 400 120 20 (3/2) 0 (-1),
                 mkHazard 566 300 80 20 3 0 1],
      particles = [], shakeAmount = 10\<rparr>"
  unfolding lowEnergy_def besideHazard_eq
  by (simp add: eval_nat_numeral frame_defs)

lemma lowEnergy_contact: "hazardContact lowEnergy"
  unfolding lowEnergy_eq by (simp add: hazardContact_def frame_defs)

text \<open>
  Claim C3. In every state a session can reach the stored energy is not negative; and a
  frame whose hazard penalty would take the energy below 0 stores the energy 0 and
  leaves the state \<open>Lost\<close>.
\<close>

theorem energy_never_negative:
  assumes "reachable s"
  shows "0 \<le> energy (player s) \<and>
         0 \<le> energy (player (gameLoop s)) \<and>
         0 \<le> energy (player (keydown rnd key s)) \<and>
         (gameState s = Playing \<and> hazardContact s \<and> energy (player s) - 10 < 0 \<longrightarrow>
            energy (player (gameLoop s)) = 0 \<and> gameState (gameLoop s) = Lost)"
proof -
  have ok: "energy_ok s" using assms by (rule reachable_energy_ok)
  have "0 \<le> energy (player s)"
    using ok by (simp add: energy_ok_def)
  moreover have "0 \<le> energy (player (gameLoop s))"
    using energy_ok_gameLoop [OF ok] by (simp add: energy_ok_def)
  moreover have "0 \<le> energy (player (keydown rnd key s))"
    using energy_ok_keydown [OF ok, of rnd key] by (simp add: energy_ok_def)
  moreover have "energy (player (gameLoop s)) = 0 \<and> gameState (gameLoop s) = Lost"
    if "gameState s = Playing" "hazardContact s" "energy (player s) - 10 < 0"
    using gameLoop_hit [OF that(1,2)] that(3) by simp
  ultimately show ?thesis by blast
qed

theorem energy_never_negative_witness:
  "reachable lowEnergy \<and> gameState lowEnergy = Playing \<and> hazardContact lowEnergy
   \<and> energy (player lowEnergy) = 1
   \<and> energy (player (gameLoop lowEnergy)) = 0 \<and> gameState (gameLoop lowEnergy) = Lost"
proof -
  have a: "gameState lowEnergy = Playing" "energy (player lowEnergy) = 1"
    by (simp_all add: lowEnergy_eq)
  show ?thesis
    using energy_never_negative [OF reachable_lowEnergy, of rndHalf "''d''"]
      reachable_lowEnergy lowEnergy_contact a
    by simp
qed

subsection \<open>Consecutive frames in contact\<close>

lemma contactFrames_energy:
  "contactFrames (Suc k) s \<Longrightarrow>
     energy (player (frames (Suc k) s)) = max 0 (energy (player s) - 10 * (1 + int k))"
proof (induction k arbitrary: s)
  case 0
  then show ?case using gameLoop_hit(1) [of s] by simp
next
  case (Suc k)
  have p: "gameState s = Playing" and h: "hazardContact s"
    and rest: "contactFrames (Suc k) (gameLoop s)"
    using Suc.prems by simp_all
  have "gameState (gameLoop s) = Playing" using rest by simp
  then have e: "energy (player (gameLoop s)) = energy (player s) - 10"
    using gameLoop_hit [OF p h] by (simp split: if_splits)
  show ?case
    using Suc.IH [OF rest] e by (simp add: algebra_simps)
qed

text \<open>
  Claim C6. If the player overlaps a hazard in each of \<open>K \<ge> 1\<close> consecutive frames run in
  state \<open>Playing\<close>, the energy after them is the energy before less \<open>10 * K\<close>, clamped
  at 0: the penalty is taken in every frame of the overlap.
\<close>

theorem sustained_contact_costs_ten_per_frame:
  assumes "1 \<le> K" and "contactFrames K s"
  shows "energy (player (frames K s)) = max 0 (energy (player s) - 10 * int K)"
proof -
  obtain k where K: "K = Suc k" using assms(1) by (cases K) simp_all
  show ?thesis using contactFrames_energy [of k s] assms(2) unfolding K by (simp add: algebra_simps)
qed

lemma inContact_eq:
  "inContact =
     \<lparr>gameState = Playing, isMuted = False,
      player = \<lparr>p_x = 250, p_y = 390, p_size = 30, p_speed = 40, energy = 91, steps = 9\<rparr>,
      walls = initialWalls,
      hazards = [mkHazard 126 200 100 20 2 0 1, mkHazard (561/2) 400 120 20 (3/2) 0 (-1),
                 mkHazard 539 300 80 20 3 0 1],
      particles = [], shakeAmount = 0\<rparr>"
  unfolding inContact_def besideHazard_eq
  by (simp add: eval_nat_numeral frame_defs)

lemma inContact_4: "contactFrames 4 inContact"
  unfolding inContact_eq
  by (simp add: eval_nat_numeral hazardContact_def frame_defs)

lemma inContact_10: "contactFrames 10 inContact"
  unfolding inContact_eq
  by (simp add: eval_nat_numeral hazardContact_def frame_defs)

theorem sustained_contact_costs_ten_per_frame_witness:
  "(1::nat) \<le> 4 \<and> contactFrames 4 inContact \<and> energy (player inContact) = 91
   \<and> energy (player (frames 4 inContact)) = 51
   \<and> contactFrames 10 inContact \<and> energy (player (frames 10 inContact)) = 0"
proof -
  have e: "energy (player inContact) = 91" by (simp add: inContact_eq)
  have "energy (player (frames 4 inContact)) = 51"
    using sustained_contact_costs_ten_per_frame [OF _ inContact_4] e by simp
  moreover have "energy (player (frames 10 inContact)) = 0"
    using sustained_contact_costs_ten_per_frame [OF _ inContact_10] e by simp
  ultimately show ?thesis using inContact_4 inContact_10 e by simp
qed

lemma hazardContact_overlapping: "hazardContact s \<longleftrightarrow> overlapping s \<noteq> []"
  by (simp add: hazardContact_def overlapping_def hazardLoop_iff filter_empty_conv)

text \<open>
  Claim C10. In a frame run in state \<open>Playing\<close> in which one or more hazards overlap
  the player, however many they are, the energy is lowered by 10 once (and then clamped
  at 0 as in every frame).
\<close>

theorem penalty_once_per_frame:
  assumes "gameState s = Playing" and "1 \<le> length (overlapping s)"
  shows "energy (player (gameLoop s)) =
           (if energy (player s) - 10 \<le> 0 then 0 else energy (player s) - 10)"
proof -
  have "overlapping s \<noteq> []" using assms(2) by auto
  then have "hazardContact s" by (simp add: hazardContact_overlapping)
  then show ?thesis using gameLoop_hit(1) [OF assms(1)] by simp
qed

lemma twoHazards_overlapping: "length (overlapping twoHazards) = 2"
  by (simp add: overlapping_def twoHazards_def startGame_def resetGame_def initialState_def
      updateHazards_def moveHazard_def hitsHazard_def mkHazard_def Let_def)

theorem penalty_once_per_frame_witness:
  "gameState twoHazards = Playing \<and> length (overlapping twoHazards) = 2
   \<and> energy (player twoHazards) = 100 \<and> energy (player (gameLoop twoHazards)) = 90"
proof -
  have a: "gameState twoHazards = Playing" "energy (player twoHazards) = 100"
    by (simp_all add: twoHazards_def startGame_def resetGame_def)
  have b: "1 \<le> length (overlapping twoHazards)" by (simp add: twoHazards_overlapping)
  show ?thesis
    using penalty_once_per_frame [OF a(1) b] a twoHazards_overlapping by simp
qed

subsection \<open>Hazard motion\<close>

lemma moveHazard_fields:
  "h_x (moveHazard h) = h_x h + speedX h * direction h"
  "h_y (moveHazard h) = h_y h"
  "h_width (moveHazard h) = h_width h"
  "h_height (moveHazard h) = h_height h"
  "speedX (moveHazard h) = speedX h"
  "speedY (moveHazard h) = speedY h"
  "direction (moveHazard h) =
     (if h_x h + speedX h * direction h < 30 \<or> h_x h + speedX h * direction h + h_width h > 770
      then - direction h else direction h)"
  by (simp_all add: moveHazard_def Let_def)

lemma hazard_ok_moveHazard:
  assumes "hazard_ok h"
  shows "hazard_ok (moveHazard h)"
proof -
  have d: "direction h = 1 \<or> direction h = -1" using assms by (simp add: hazard_ok_def)
  then show ?thesis
  proof
    assume "direction h = 1"
    then show ?thesis using assms by (auto simp: hazard_ok_def moveHazard_fields)
  next
    assume "direction h = -1"
    then show ?thesis using assms by (auto simp: hazard_ok_def moveHazard_fields)
  qed
qed

lemma same_shape_moveHazard: "same_shape h h' \<Longrightarrow> same_shape (moveHazard h) h'"
  by (simp add: same_shape_def moveHazard_fields)

lemma hazard_ok_flip:
  assumes "hazard_ok h"
  shows "direction (moveHazard h) = - direction h \<longleftrightarrow> beyondMargin (moveHazard h)"
    and "beyondMargin (moveHazard h) \<longleftrightarrow> crossesMargin h"
proof -
  have d: "direction h = 1 \<or> direction h = -1" using assms by (simp add: hazard_ok_def)
  then show "direction (moveHazard h) = - direction h \<longleftrightarrow> beyondMargin (moveHazard h)"
    by (auto simp: beyondMargin_def moveHazard_fields)
  from d show "beyondMargin (moveHazard h) \<longleftrightarrow> crossesMargin h"
  proof
    assume "direction h = 1"
    then show ?thesis using assms
      by (auto simp: hazard_ok_def beyondMargin_def crossesMargin_def moveHazard_fields)
  next
    assume "direction h = -1"
    then show ?thesis using assms
      by (auto simp: hazard_ok_def beyondMargin_def crossesMargin_def moveHazard_fields)
  qed
qed

lemma hazards_ok_updateHazards:
  assumes "list_all2 (\<lambda>h h'. same_shape h h' \<and> hazard_ok h) hs hs0"
  shows "list_all2 (\<lambda>h h'. same_shape h h' \<and> hazard_ok h) (updateHazards hs) hs0"
  using assms unfolding updateHazards_def list_all2_map1
  by (rule list_all2_mono) (simp add: same_shape_moveHazard hazard_ok_moveHazard)

lemma hazards_ok_initial:
  "list_all2 (\<lambda>h h'. same_shape h h' \<and> hazard_ok h) initialHazards initialHazards"
  by (simp add: initialHazards_def mkHazard_def same_shape_def hazard_ok_def)

lemma hazards_ok_reset:
  assumes "list_all2 (\<lambda>h h'. same_shape h h' \<and> hazard_ok h) hs initialHazards"
  shows "list_all2 (\<lambda>h h'. same_shape h h' \<and> hazard_ok h) (resetHazards hs) initialHazards"
proof -
  obtain h0 h1 h2 where hs: "hs = [h0, h1, h2]"
    using assms by (auto simp: initialHazards_def list_all2_Cons2)
  show ?thesis
    using assms unfolding hs
    by (simp add: initialHazards_def mkHazard_def same_shape_def hazard_ok_def)
qed

lemma hazards_ok_gameLoop: "hazards_ok s \<Longrightarrow> hazards_ok (gameLoop s)"
proof (cases "gameState s = Playing")
  case True
  assume "hazards_ok s"
  then show ?thesis
    unfolding hazards_ok_def gameLoop_playing_hazards [OF True] by (rule hazards_ok_updateHazards)
next
  case False
  assume "hazards_ok s"
  then show ?thesis using gameLoop_not_playing [OF False] by (simp add: hazards_ok_def)
qed

lemma movePlayer_hazards: "hazards (movePlayer rnd dx dy s) = hazards s"
  by (simp add: movePlayer_def Let_def)

lemma hazards_ok_resetGame: "hazards_ok s \<Longrightarrow> hazards_ok (resetGame s)"
  by (simp add: hazards_ok_def resetGame_def hazards_ok_reset)

lemma hazards_ok_keydown: "hazards_ok s \<Longrightarrow> hazards_ok (keydown rnd key s)"
proof -
  assume ok: "hazards_ok s"
  have m: "hazards_ok (movePlayer rnd dx dy s)" for dx dy
    using ok by (simp add: hazards_ok_def movePlayer_hazards)
  have t: "hazards_ok (toggleMute u) = hazards_ok u" for u
    by (simp add: hazards_ok_def toggleMute_def)
  show ?thesis
    by (simp add: keydown_def Let_def t m ok hazards_ok_resetGame)
qed

lemma reachable_hazards_ok: "reachable s \<Longrightarrow> hazards_ok s"
proof (induction rule: reachable.induct)
  case r_init
  show ?case by (simp add: hazards_ok_def initialState_def hazards_ok_initial)
next
  case (r_frame s)
  then show ?case by (simp add: hazards_ok_gameLoop)
next
  case (r_key s rnd key)
  then show ?case by (simp add: hazards_ok_keydown)
next
  case (r_start s)
  then show ?case using hazards_ok_resetGame [of s] by (simp add: startGame_def hazards_ok_def)
next
  case (r_title s)
  then show ?case by (simp add: hazards_ok_def showTitleScreen_def)
next
  case (r_mute s)
  then show ?case by (simp add: hazards_ok_def toggleMute_def)
qed

lemma hazards_ok_member:
  assumes "hazards_ok s" and "h \<in> set (hazards s)"
  shows "hazard_ok h"
proof -
  obtain i where i: "i < length (hazards s)" "hazards s ! i = h"
    using assms(2) by (auto simp: in_set_conv_nth)
  show ?thesis
    using assms(1) i unfolding hazards_ok_def by (auto simp: list_all2_conv_all_nth)
qed

text \<open>
  Claim C7. In every state a session can reach (the hazards start from and are reset to
  their documented positions and directions), every hazard lies between the left margin
  less one frame's travel and the right margin plus one frame's travel, its direction is
  a sign, and in the next update its direction is negated exactly when the updated
  position is beyond a margin, which is exactly when the update crosses that margin.
\<close>

theorem hazard_flips_at_margin_and_stays_bounded:
  assumes "reachable s" and "h \<in> set (hazards s)"
  shows "30 - speedX h \<le> h_x h \<and> h_x h + h_width h \<le> 770 + speedX h \<and>
         (direction (moveHazard h) = - direction h \<longleftrightarrow> beyondMargin (moveHazard h)) \<and>
         (beyondMargin (moveHazard h) \<longleftrightarrow> crossesMargin h) \<and>
         (direction h = 1 \<or> direction h = -1)"
proof -
  have ok: "hazard_ok h"
    using reachable_hazards_ok [OF assms(1)] assms(2) by (rule hazards_ok_member)
  show ?thesis
    using ok hazard_ok_flip [OF ok] by (simp add: hazard_ok_def)
qed

lemma beforeFlip_eq:
  "beforeFlip =
     \<lparr>gameState = Playing, isMuted = False,
      player = \<lparr>p_x = 50, p_y = 550, p_size = 30, p_speed = 40, energy = 100, steps = 0\<rparr>,
      walls = initialWalls,
      hazards = [mkHazard 226 200 100 20 2 0 1, mkHazard (411/2) 400 120 20 (3/2) 0 (-1),
                 mkHazard 689 300 80 20 3 0 1],
      particles = [], shakeAmount = 0\<rparr>"
  unfolding beforeFlip_def
  by (simp add: eval_nat_numeral startGame_def resetGame_def initialState_def frame_defs)

lemma reachable_beforeFlip: "reachable beforeFlip"
  unfolding beforeFlip_def by (intro reachable_frames r_start r_init)

theorem hazard_flips_at_margin_and_stays_bounded_witness:
  "reachable beforeFlip \<and> mkHazard 689 300 80 20 3 0 1 \<in> set (hazards beforeFlip)
   \<and> h_x (moveHazard (mkHazard 689 300 80 20 3 0 1)) = 692
   \<and> beyondMargin (moveHazard (mkHazard 689 300 80 20 3 0 1))
   \<and> crossesMargin (mkHazard 689 300 80 20 3 0 1)
   \<and> direction (moveHazard (mkHazard 689 300 80 20 3 0 1)) = -1"
proof -
  have m: "mkHazard 689 300 80 20 3 0 1 \<in> set (hazards beforeFlip)"
    by (simp add: beforeFlip_eq)
  have x: "h_x (moveHazard (mkHazard 689 300 80 20 3 0 1)) = 692"
    "h_width (moveHazard (mkHazard 689 300 80 20 3 0 1)) = 80"
    "direction (mkHazard 689 300 80 20 3 0 1) = 1"
    by (simp_all add: moveHazard_fields mkHazard_def)
  have b: "beyondMargin (moveHazard (mkHazard 689 300 80 20 3 0 1))"
    by (simp add: beyondMargin_def x)
  show ?thesis
    using hazard_flips_at_margin_and_stays_bounded [OF reachable_beforeFlip m] m b x reachable_beforeFlip
    by simp
qed

subsection \<open>Touching rectangles\<close>

lemma between:
  fixes x x' w w' :: real
  assumes "0 < w" "0 < w'" "x < x' + w'" "x + w > x'"
  shows "\<exists>a. x < a \<and> a < x + w \<and> x' < a \<and> a < x' + w'"
proof -
  define lo where "lo = max x x'"
  define hi where "hi = min (x + w) (x' + w')"
  have "lo < hi" using assms by (simp add: lo_def hi_def)
  then have m: "lo < (lo + hi) / 2" "(lo + hi) / 2 < hi" by simp_all
  have "x \<le> lo" "x' \<le> lo" "hi \<le> x + w" "hi \<le> x' + w'"
    by (simp_all add: lo_def hi_def)
  then have "x < (lo + hi) / 2 \<and> (lo + hi) / 2 < x + w \<and>
             x' < (lo + hi) / 2 \<and> (lo + hi) / 2 < x' + w'"
    using m by linarith
  then show ?thesis by blast
qed

lemma strict_overlap_interiors:
  fixes x y w h x' y' w' h' :: real
  assumes "0 < w" "0 < h" "0 < w'" "0 < h'"
    and "x < x' + w'" "x + w > x'" "y < y' + h'" "y + h > y'"
  shows "openBox x y w h \<inter> openBox x' y' w' h' \<noteq> {}"
proof -
  obtain a where a: "x < a \<and> a < x + w \<and> x' < a \<and> a < x' + w'"
    using between [OF assms(1,3,5,6)] by blast
  obtain b where b: "y < b \<and> b < y + h \<and> y' < b \<and> b < y' + h'"
    using between [OF assms(2,4,7,8)] by blast
  have "(a, b) \<in> openBox x y w h \<inter> openBox x' y' w' h'"
    using a b by (simp add: openBox_def)
  then show ?thesis by blast
qed

text \<open>
  Claim C8. For a rectangle that merely touches the player's box (they share a point, but
  no interior point) the overlap tests used against walls and against hazards report no
  collision.
\<close>

theorem touching_is_no_collision:
  "(touching nx ny (p_size p) (p_size p) (w_x wall) (w_y wall) (w_width wall) (w_height wall)
      \<longrightarrow> \<not> hitsWall p nx ny wall \<and> \<not> wallLoop p nx ny [wall])
   \<and> (touching (p_x p) (p_y p) (p_size p) (p_size p)
         (h_x hazard) (h_y hazard) (h_width hazard) (h_height hazard)
      \<longrightarrow> \<not> hitsHazard p hazard \<and> \<not> hazardLoop p [hazard])"
proof (intro conjI impI)
  assume t: "touching nx ny (p_size p) (p_size p)
               (w_x wall) (w_y wall) (w_width wall) (w_height wall)"
  show n: "\<not> hitsWall p nx ny wall"
  proof
    assume "hitsWall p nx ny wall"
    then have "openBox nx ny (p_size p) (p_size p) \<inter>
               openBox (w_x wall) (w_y wall) (w_width wall) (w_height wall) \<noteq> {}"
      using t by (intro strict_overlap_interiors) (simp_all add: hitsWall_def touching_def)
    then show False using t by (simp add: touching_def)
  qed
  show "\<not> wallLoop p nx ny [wall]" using n by simp
next
  assume t: "touching (p_x p) (p_y p) (p_size p) (p_size p)
               (h_x hazard) (h_y hazard) (h_width hazard) (h_height hazard)"
  show n: "\<not> hitsHazard p hazard"
  proof
    assume "hitsHazard p hazard"
    then have "openBox (p_x p) (p_y p) (p_size p) (p_size p) \<inter>
               openBox (h_x hazard) (h_y hazard) (h_width hazard) (h_height hazard) \<noteq> {}"
      using t by (intro strict_overlap_interiors) (simp_all add: hitsHazard_def touching_def)
    then show False using t by (simp add: touching_def)
  qed
  show "\<not> hazardLoop p [hazard]" using n by simp
qed

lemma touching_edge: "touching 50 550 30 30 0 580 800 20"
proof -
  have "(50, 580) \<in> closedBox 50 550 30 30 \<inter> closedBox 0 580 800 20"
    by (simp add: closedBox_def)
  then have "closedBox 50 550 30 30 \<inter> closedBox 0 580 800 20 \<noteq> {}" by blast
  moreover have "openBox 50 550 30 30 \<inter> openBox 0 580 800 20 = {}"
    by (auto simp: openBox_def)
  ultimately show ?thesis by (simp add: touching_def)
qed

lemma touching_corner: "touching 50 550 30 30 80 580 100 20"
proof -
  have "(80, 580) \<in> closedBox 50 550 30 30 \<inter> closedBox 80 580 100 20"
    by (simp add: closedBox_def)
  then have "closedBox 50 550 30 30 \<inter> closedBox 80 580 100 20 \<noteq> {}" by blast
  moreover have "openBox 50 550 30 30 \<inter> openBox 80 580 100 20 = {}"
    by (auto simp: openBox_def)
  ultimately show ?thesis by (simp add: touching_def)
qed

theorem touching_is_no_collision_witness:
  "touching 50 550 30 30 0 580 800 20
   \<and> \<not> hitsWall (player initialState) 50 550 (mkWall 0 580 800 20)
   \<and> \<not> wallLoop (player initialState) 50 550 [mkWall 0 580 800 20]
   \<and> touching 50 550 30 30 80 580 100 20
   \<and> \<not> hitsHazard (player initialState) (mkHazard 80 580 100 20 2 0 1)
   \<and> \<not> hazardLoop (player initialState) [mkHazard 80 580 100 20 2 0 1]"
proof -
  have f: "p_size (player initialState) = 30" "p_x (player initialState) = 50"
    "p_y (player initialState) = 550"
    "w_x (mkWall 0 580 800 20) = 0" "w_y (mkWall 0 580 800 20) = 580"
    "w_width (mkWall 0 580 800 20) = 800" "w_height (mkWall 0 580 800 20) = 20"
    "h_x (mkHazard 80 580 100 20 2 0 1) = 80" "h_y (mkHazard 80 580 100 20 2 0 1) = 580"
    "h_width (mkHazard 80 580 100 20 2 0 1) = 100" "h_height (mkHazard 80 580 100 20 2 0 1) = 20"
    by (simp_all add: initialState_def mkWall_def mkHazard_def)
  show ?thesis
    using touching_is_no_collision [of 50 550 "player initialState" "mkWall 0 580 800 20"
        "mkHazard 80 580 100 20 2 0 1"] touching_edge touching_corner
    unfolding f by blast
qed

subsection \<open>Particles\<close>

lemma confettiLoop_eq:
  "confettiLoop rnd i n ps =
     ps @ map (\<lambda>k. newParticle (rnd (4 * k)) (rnd (4 * k + 1)) (rnd (4 * k + 2)) (rnd (4 * k + 3)))
            [i ..< i + n]"
proof (induction n arbitrary: i ps)
  case 0
  show ?case by simp
next
  case (Suc n)
  have "[i ..< i + Suc n] = i # [Suc i ..< Suc i + n]"
    by (simp add: upt_conv_Cons)
  then show ?case by (simp add: Suc.IH)
qed

lemma createConfetti_Nil:
  "length (createConfetti rnd []) = 50" "p \<in> set (createConfetti rnd []) \<Longrightarrow> life p = 1"
  by (auto simp: createConfetti_def confettiLoop_eq newParticle_def)

lemma particleLoop_eq:
  "i \<le> length ps \<Longrightarrow>
     particleLoop i ps = filter (\<lambda>p. 0 < life p) (map stepParticle (take i ps)) @ drop i ps"
proof (induction i arbitrary: ps)
  case 0
  show ?case by simp
next
  case (Suc i)
  then have i: "i < length ps" by simp
  let ?p = "stepParticle (ps ! i)"
  have t: "take (Suc i) ps = take i ps @ [ps ! i]"
    using i by (simp add: take_Suc_conv_app_nth)
  show ?case
  proof (cases "life ?p \<le> 0")
    case True
    have "particleLoop (Suc i) ps = particleLoop i (take i ps @ drop (Suc i) ps)"
      using i True by (simp add: Let_def)
    also have "\<dots> = filter (\<lambda>p. 0 < life p) (map stepParticle (take i ps)) @ drop (Suc i) ps"
      using i by (subst Suc.IH) simp_all
    finally show ?thesis using True by (simp add: t)
  next
    case False
    have "particleLoop (Suc i) ps = particleLoop i (ps[i := ?p])"
      using i False by (simp add: Let_def)
    also have "\<dots> = filter (\<lambda>p. 0 < life p) (map stepParticle (take i ps)) @ ?p # drop (Suc i) ps"
      using i by (subst Suc.IH) (simp_all add: drop_update_cancel Cons_nth_drop_Suc [symmetric] upd_conv_take_nth_drop)
    finally show ?thesis using False by (simp add: t)
  qed
qed

lemma updateParticles_eq:
  "updateParticles ps = filter (\<lambda>p. 0 < life p) (map stepParticle ps)"
  by (simp add: updateParticles_def particleLoop_eq)

lemma life_stepParticle: "life (stepParticle p) = fsub (life p) (roundDouble (2/100))"
  by (simp add: stepParticle_def)

lemma updateParticles_length_le: "length (updateParticles ps) \<le> length ps"
  by (simp add: updateParticles_eq)

lemma updateParticles_alive: "p \<in> set (updateParticles ps) \<Longrightarrow> 0 < life p"
  by (simp add: updateParticles_eq)

lemma uniform_keep:
  assumes "uniform L ps" and "0 < fsub L (roundDouble (2/100))"
  shows "length (updateParticles ps) = length ps"
    and "uniform (fsub L (roundDouble (2/100))) (updateParticles ps)"
proof -
  have "filter (\<lambda>p. 0 < life p) (map stepParticle ps) = map stepParticle ps"
    using assms by (auto simp: uniform_def life_stepParticle filter_id_conv)
  then have e: "updateParticles ps = map stepParticle ps" by (simp add: updateParticles_eq)
  show "length (updateParticles ps) = length ps" by (simp add: e)
  show "uniform (fsub L (roundDouble (2/100))) (updateParticles ps)"
    using assms(1) by (auto simp: e uniform_def life_stepParticle)
qed

lemma uniform_drop:
  assumes "uniform L ps" and "fsub L (roundDouble (2/100)) \<le> 0"
  shows "updateParticles ps = []"
  using assms by (auto simp: updateParticles_eq uniform_def life_stepParticle filter_empty_conv)

subsection \<open>The life of a burst, computed\<close>

lemma roundDouble_0_02: "roundDouble (2/100) = 5764607523034235 / 288230376151711744"
  by (simp add: roundDouble.simps rne_def Let_def)

lemma burstLives_decays: "decays burstLives"
  by (simp add: burstLives_def burstNumerators_def fsub_def roundDouble_0_02 roundDouble.simps
      rne_def Let_def)

lemma decays_nth:
  "decays xs \<Longrightarrow> Suc k < length xs \<Longrightarrow> fsub (xs ! k) (roundDouble (2/100)) = xs ! Suc k"
proof (induction xs arbitrary: k rule: decays.induct)
  case (1 a b xs)
  then show ?case by (cases k) simp_all
qed simp_all

lemma length_burstLives: "length burstLives = 51"
  by (simp add: burstLives_def burstNumerators_def)

lemma burstLives_0: "burstLives ! 0 = 1"
  by (simp add: burstLives_def burstNumerators_def)

lemma burstLife_nth: "k < 51 \<Longrightarrow> burstLife k = burstLives ! k"
proof (induction k)
  case 0
  show ?case by (simp add: burstLives_0)
next
  case (Suc k)
  then have "burstLife k = burstLives ! k" by simp
  moreover have "fsub (burstLives ! k) (roundDouble (2/100)) = burstLives ! Suc k"
    using Suc.prems by (intro decays_nth burstLives_decays) (simp add: length_burstLives)
  ultimately show ?case by simp
qed

lemma burstLives_positive: "list_all (\<lambda>v. 0 < v) (butlast burstLives)"
  by (simp add: burstLives_def burstNumerators_def)

lemma burstLives_close:
  "list_all (\<lambda>(k, v). \<bar>v - (1 - real k * (2/100))\<bar> \<le> 1 / 10^15) (enumerate 0 burstLives)"
  by (simp add: burstLives_def burstNumerators_def)

lemma burstLives_last: "burstLives ! 50 \<le> 0"
  by (simp add: burstLives_def burstNumerators_def)

lemma burstLife_positive: "k < 50 \<Longrightarrow> 0 < burstLife k"
proof -
  assume k: "k < 50"
  have "0 < butlast burstLives ! k"
    using burstLives_positive k by (simp add: list_all_length length_burstLives)
  then show ?thesis using k by (simp add: burstLife_nth nth_butlast length_burstLives)
qed

lemma burstLife_50: "burstLife 50 \<le> 0"
  using burstLives_last by (simp add: burstLife_nth)

lemma burstLife_close: "k \<le> 50 \<Longrightarrow> \<bar>burstLife k - (1 - real k * (2/100))\<bar> \<le> 1 / 10^15"
proof -
  assume k: "k \<le> 50"
  have "case enumerate 0 burstLives ! k of
          (k, v) \<Rightarrow> \<bar>v - (1 - real k * (2/100))\<bar> \<le> 1 / 10^15"
    using burstLives_close k by (simp add: list_all_length length_burstLives)
  then show ?thesis using k by (simp add: nth_enumerate_eq length_burstLives burstLife_nth)
qed

lemma burstLife_decreasing: "k < 50 \<Longrightarrow> burstLife (Suc k) < burstLife k"
proof -
  assume k: "k < 50"
  have a: "\<bar>burstLife k - (1 - real k * (2/100))\<bar> \<le> 1 / 10^15"
    using k by (intro burstLife_close) simp
  have b: "\<bar>burstLife (Suc k) - (1 - real (Suc k) * (2/100))\<bar> \<le> 1 / 10^15"
    using k by (intro burstLife_close) simp
  have c: "real (Suc k) * (2/100) = real k * (2/100) + 2/100" by (simp add: algebra_simps)
  have d: "(1::real) / 10^15 = 1 / 1000000000000000" by simp
  show ?thesis using a b unfolding c d abs_le_iff by linarith
qed

subsection \<open>Frames after a win\<close>

lemma gameLoop_won:
  "gameState s = Won \<Longrightarrow>
     gameState (gameLoop s) = Won \<and> particles (gameLoop s) = updateParticles (particles s)"
  by (simp add: gameLoop_def Let_def)

lemma frames_won: "gameState s = Won \<Longrightarrow> gameState (frames k s) = Won"
  by (induction k arbitrary: s) (simp_all add: gameLoop_won)

lemma frames_Suc: "frames (Suc k) s = gameLoop (frames k s)"
  by (induction k arbitrary: s) simp_all

lemma frames_won_particles:
  "gameState s = Won \<Longrightarrow>
     particles (frames (Suc k) s) = updateParticles (particles (frames k s))"
  unfolding frames_Suc using gameLoop_won [OF frames_won] by simp

lemma burst_decay:
  assumes "gameState s = Won" and "uniform 1 (particles s)" and "k < 50"
  shows "length (particles (frames k s)) = length (particles s) \<and>
         uniform (burstLife k) (particles (frames k s))"
  using assms(3)
proof (induction k)
  case 0
  show ?case using assms(2) by simp
next
  case (Suc k)
  then have ih: "length (particles (frames k s)) = length (particles s)"
    "uniform (burstLife k) (particles (frames k s))"
    by simp_all
  have pos: "0 < fsub (burstLife k) (roundDouble (2/100))"
    using burstLife_positive [OF Suc.prems] by simp
  have "length (updateParticles (particles (frames k s))) = length (particles s)"
    using uniform_keep(1) [OF ih(2) pos] ih(1) by simp
  moreover have "uniform (burstLife (Suc k)) (updateParticles (particles (frames k s)))"
    using uniform_keep(2) [OF ih(2) pos] by simp
  ultimately show ?case
    unfolding frames_won_particles [OF assms(1)] by blast
qed

lemma burst_gone:
  assumes "gameState s = Won" and "uniform 1 (particles s)" and "50 \<le> k"
  shows "particles (frames k s) = []"
proof -
  have u: "uniform (burstLife 49) (particles (frames 49 s))"
    using burst_decay [OF assms(1,2), of 49] by simp
  have "burstLife (Suc 49) \<le> 0"
    using burstLife_50 by (simp del: burstLife.simps)
  then have "fsub (burstLife 49) (roundDouble (2/100)) \<le> 0"
    by (simp only: burstLife.simps)
  then have "particles (frames (Suc 49) s) = []"
    unfolding frames_won_particles [OF assms(1)]
    by (rule uniform_drop [OF u])
  then have base: "particles (frames 50 s) = []" by simp
  have "particles (frames (50 + n) s) = []" for n
  proof (induction n)
    case 0
    show ?case using base by simp
  next
    case (Suc n)
    have "particles (frames (Suc (50 + n)) s) = updateParticles (particles (frames (50 + n) s))"
      by (rule frames_won_particles [OF assms(1)])
    then show ?case using Suc by (simp add: updateParticles_def)
  qed
  from this [of "k - 50"] show ?thesis using assms(3) by simp
qed

subsection \<open>No particles while playing\<close>

lemma no_particles_gameLoop: "no_particles s \<Longrightarrow> no_particles (gameLoop s)"
  by (auto simp: no_particles_def gameLoop_def Let_def updateParticles_def)

lemma movePlayer_stays_playing:
  "gameState (movePlayer rnd dx dy s) = Playing \<Longrightarrow>
     gameState s = Playing \<and> particles (movePlayer rnd dx dy s) = particles s"
  by (auto simp: movePlayer_def Let_def split: if_splits)

lemma no_particles_movePlayer: "no_particles s \<Longrightarrow> no_particles (movePlayer rnd dx dy s)"
  using movePlayer_stays_playing [of rnd dx dy s] by (auto simp: no_particles_def)

lemma no_particles_resetGame: "no_particles (resetGame s)"
  by (simp add: no_particles_def resetGame_def)

lemma no_particles_keydown: "no_particles s \<Longrightarrow> no_particles (keydown rnd key s)"
proof -
  assume ok: "no_particles s"
  have t: "no_particles (toggleMute u) = no_particles u" for u
    by (simp add: no_particles_def toggleMute_def)
  show ?thesis
    by (simp add: keydown_def Let_def t ok no_particles_movePlayer no_particles_resetGame)
qed

lemma reachable_no_particles: "reachable s \<Longrightarrow> no_particles s"
proof (induction rule: reachable.induct)
  case r_init
  show ?case by (simp add: no_particles_def initialState_def)
next
  case (r_frame s)
  then show ?case by (simp add: no_particles_gameLoop)
next
  case (r_key s rnd key)
  then show ?case by (simp add: no_particles_keydown)
next
  case (r_start s)
  show ?case by (simp add: no_particles_def startGame_def resetGame_def)
next
  case (r_title s)
  then show ?case by (simp add: no_particles_def showTitleScreen_def)
next
  case (r_mute s)
  then show ?case by (simp add: no_particles_def toggleMute_def)
qed

lemma keydown_won:
  "gameState s = Won \<Longrightarrow>
     particles (keydown rnd key s) = particles s \<and> gameState (keydown rnd key s) = Won"
  by (simp add: keydown_def Let_def movePlayer_def toggleMute_def)

text \<open>What a winning move leaves, from a state a session can reach.\<close>

lemma burst_of_winning_move:
  assumes "reachable s" and "gameState s = Playing"
    and "\<not> checkWallCollision s (newX dx s) (newY dy s)"
    and "checkGoalReached (movePlayer rnd dx dy s)"
  shows "gameState (movePlayer rnd dx dy s) = Won"
    and "length (particles (movePlayer rnd dx dy s)) = 50"
    and "uniform 1 (particles (movePlayer rnd dx dy s))"
proof -
  have e: "particles s = []"
    using reachable_no_particles [OF assms(1)] assms(2) by (simp add: no_particles_def)
  show "gameState (movePlayer rnd dx dy s) = Won"
    using movePlayer_gameState [OF assms(2,3), of rnd] assms(4) by simp
  have p: "particles (movePlayer rnd dx dy s) = createConfetti rnd []"
    using movePlayer_particles [OF assms(2,3), of rnd] assms(4) e by simp
  show "length (particles (movePlayer rnd dx dy s)) = 50"
    by (simp add: p createConfetti_Nil)
  show "uniform 1 (particles (movePlayer rnd dx dy s))"
    by (simp add: p uniform_def createConfetti_Nil)
qed

lemma reachable_beforeGoal: "reachable beforeGoal"
  unfolding beforeGoal_def
  by (intro reachable_moveTimes r_start r_init) simp_all

lemma beforeGoal_eq:
  "beforeGoal =
     \<lparr>gameState = Playing, isMuted = False,
      player = \<lparr>p_x = 690, p_y = 70, p_size = 30, p_speed = 40, energy = 58, steps = 42\<rparr>,
      walls = initialWalls, hazards = initialHazards, particles = [], shakeAmount = 0\<rparr>"
  unfolding beforeGoal_def
  by (simp add: eval_nat_numeral movePlayer_def checkGoalReached_iff startGame_def
      resetGame_def eval_defs)

lemma beforeGoal_playing: "gameState beforeGoal = Playing"
  by (simp add: beforeGoal_eq)

lemma beforeGoal_free: "\<not> checkWallCollision beforeGoal (newX 1 beforeGoal) (newY 0 beforeGoal)"
  by (simp add: beforeGoal_eq eval_defs)

lemma beforeGoal_goal: "checkGoalReached (movePlayer rnd 1 0 beforeGoal)"
  unfolding goal_after_move [OF beforeGoal_playing beforeGoal_free]
  by (simp add: checkGoalReached_iff movedPlayer_def beforeGoal_eq eval_defs)

text \<open>
  Claim C9, as stated, fails: after the winning step from \<open>beforeGoal\<close> there are 50
  particles, and there are still 50 after one frame and after two frames, so the count
  does not strictly decrease from frame to frame although the decay has begun. And
  after four frames the life of a particle is not \<open>1 - 4 * 0.02\<close>: in double arithmetic
  the life goes down by 0.02 only up to rounding.
\<close>

theorem particle_count_not_strictly_decreasing:
  "gameState beforeGoal = Playing \<and> gameState atGoal = Won
   \<and> length (particles atGoal) = 50
   \<and> length (particles (frames 1 atGoal)) = 50
   \<and> length (particles (frames 2 atGoal)) = 50
   \<and> \<not> length (particles (frames 2 atGoal)) < length (particles (frames 1 atGoal))
   \<and> life (hd (particles (frames 4 atGoal))) = 265171946059574784 / 288230376151711744
   \<and> life (hd (particles (frames 4 atGoal))) \<noteq> 1 - 4 * (2/100)"
proof -
  note w = burst_of_winning_move [OF reachable_beforeGoal beforeGoal_playing beforeGoal_free
      beforeGoal_goal [of rndHalf], folded atGoal_def]
  have n: "length (particles (frames 1 atGoal)) = 50" "length (particles (frames 2 atGoal)) = 50"
    using burst_decay [OF w(1,3), of 1] burst_decay [OF w(1,3), of 2] w(2) by simp_all
  have "length (particles (frames 4 atGoal)) = 50"
    and u: "uniform (burstLife 4) (particles (frames 4 atGoal))"
    using burst_decay [OF w(1,3), of 4] w(2) by simp_all
  then have "particles (frames 4 atGoal) \<noteq> []" by auto
  then have "hd (particles (frames 4 atGoal)) \<in> set (particles (frames 4 atGoal))" by simp
  then have "life (hd (particles (frames 4 atGoal))) = burstLife 4"
    using u by (simp add: uniform_def)
  moreover have "burstLife 4 = 265171946059574784 / 288230376151711744"
    by (simp add: burstLife_nth burstLives_def burstNumerators_def)
  ultimately have l: "life (hd (particles (frames 4 atGoal))) =
      265171946059574784 / 288230376151711744"
    by simp
  have "(265171946059574784::real) / 288230376151711744 \<noteq> 1 - 4 * (2/100)" by simp
  then show ?thesis using w beforeGoal_playing n l by simp
qed

text \<open>
  Claim C9, amended. A winning move emits one burst of 50 particles of life 1, and no key
  pressed afterwards emits another; from then on the number of particles never increases
  from one frame to the next: it is 50 for the first 49 frames and 0 from the 50th on.
  After \<open>k\<close> frames every particle left has the life \<open>burstLife k\<close>, which is
  positive; up to the 50th update this life strictly decreases with every update, by
  0.02 up to the rounding of double arithmetic (it stays within \<open>10^-15\<close> of
  \<open>1 - 0.02 * k\<close>). Each update replaces a particle's life by the rounded difference
  with the double \<open>0.02\<close> and keeps no particle of life \<open>\<le> 0\<close>.
\<close>

theorem win_burst_decays:
  assumes "reachable s" and "gameState s = Playing"
    and "\<not> checkWallCollision s (newX dx s) (newY dy s)"
    and "checkGoalReached (movePlayer rnd dx dy s)"
  shows "gameState (movePlayer rnd dx dy s) = Won
    \<and> length (particles (movePlayer rnd dx dy s)) = 50
    \<and> (\<forall>p \<in> set (particles (movePlayer rnd dx dy s)). life p = 1)
    \<and> particles (keydown rnd' key (movePlayer rnd dx dy s)) = particles (movePlayer rnd dx dy s)
    \<and> (\<forall>k. length (particles (frames (Suc k) (movePlayer rnd dx dy s)))
             \<le> length (particles (frames k (movePlayer rnd dx dy s))))
    \<and> (\<forall>k < 50. length (particles (frames k (movePlayer rnd dx dy s))) = 50)
    \<and> (\<forall>k. \<forall>p \<in> set (particles (frames k (movePlayer rnd dx dy s))).
           life p = burstLife k \<and> 0 < life p)
    \<and> (\<forall>k < 50. burstLife (Suc k) < burstLife k \<and>
                   \<bar>burstLife k - (1 - real k * (2/100))\<bar> \<le> 1 / 10^15)
    \<and> particles (frames 50 (movePlayer rnd dx dy s)) = []
    \<and> (\<forall>p \<in> set (updateParticles ps). 0 < life p)
    \<and> life (stepParticle q) = fsub (life q) (roundDouble (2/100))"
proof -
  let ?w = "movePlayer rnd dx dy s"
  note w = burst_of_winning_move [OF assms]
  have a: "\<forall>p \<in> set (particles ?w). life p = 1"
    using w(3) by (simp add: uniform_def)
  have b: "particles (keydown rnd' key ?w) = particles ?w"
    using keydown_won [OF w(1)] by simp
  have c: "length (particles (frames (Suc k) ?w)) \<le> length (particles (frames k ?w))" for k
    unfolding frames_won_particles [OF w(1)] by (rule updateParticles_length_le)
  have d: "length (particles (frames k ?w)) = 50" if "k < 50" for k
    using burst_decay [OF w(1,3) that] w(2) by simp
  have e: "life p = burstLife k \<and> 0 < life p"
    if p: "p \<in> set (particles (frames k ?w))" for k p
  proof (cases "k < 50")
    case True
    have "life p = burstLife k"
      using burst_decay [OF w(1,3) True] p by (simp add: uniform_def)
    then show ?thesis using burstLife_positive [OF True] by simp
  next
    case False
    then have "particles (frames k ?w) = []"
      using burst_gone [OF w(1,3), of k] by simp
    then show ?thesis using p by simp
  qed
  have f: "particles (frames 50 ?w) = []"
    using burst_gone [OF w(1,3), of 50] by simp
  have g: "\<forall>p \<in> set (updateParticles ps). 0 < life p"
    by (simp add: updateParticles_alive)
  have h: "burstLife (Suc k) < burstLife k \<and>
           \<bar>burstLife k - (1 - real k * (2/100))\<bar> \<le> 1 / 10^15" if "k < 50" for k
    using burstLife_decreasing [OF that] burstLife_close [of k] that by simp
  show ?thesis
    using w(1,2) a b c d e f g h life_stepParticle by blast
qed

theorem win_burst_decays_witness:
  "reachable beforeGoal \<and> gameState beforeGoal = Playing
   \<and> \<not> checkWallCollision beforeGoal (newX 1 beforeGoal) (newY 0 beforeGoal)
   \<and> checkGoalReached (movePlayer rndHalf 1 0 beforeGoal)
   \<and> gameState atGoal = Won
   \<and> length (particles atGoal) = 50
   \<and> length (particles (frames 49 atGoal)) = 50
   \<and> particles (frames 50 atGoal) = []"
proof -
  note t = win_burst_decays [OF reachable_beforeGoal beforeGoal_playing beforeGoal_free
      beforeGoal_goal [of rndHalf], folded atGoal_def]
  have "length (particles (frames 49 atGoal)) = 50" using t by simp
  then show ?thesis
    using t reachable_beforeGoal beforeGoal_playing beforeGoal_free beforeGoal_goal by simp
qed

subsection \<open>Energy and position on the grid\<close>














end
